theory Spec2Isabelle
  imports Main
begin

section \<open>Values, exceptions and the object store\<close>

text \<open>
  The module \<^verbatim>\<open>deco.py\<close> builds its three demo functions by stacking decorators. The
  decorators keep their state in attributes of function objects (\<^verbatim>\<open>wrapper.calls\<close>,
  \<^verbatim>\<open>wrapper.results\<close>, \<^verbatim>\<open>decorator.depth\<close>) and \<^verbatim>\<open>update_wrapper\<close> copies attribute
  dictionaries from one function object to another, so function objects live in an explicit
  store: every object has an identity, a \<^verbatim>\<open>__name__\<close>, a \<^verbatim>\<open>__doc__\<close> and a \<^verbatim>\<open>__dict__\<close>.
  Dict objects (the memo caches) are stored by reference as well, since a copied
  \<^verbatim>\<open>__dict__\<close> shares them. Argument and result values are Python integers (\<open>int\<close>);
  keyword arguments are the ordered name/value pairs of \<^verbatim>\<open>**kwargs\<close>.
\<close>

type_synonym fid = nat
type_synonym ref = nat
type_synonym kwargs = "(string \<times> int) list"
type_synonym key = "fid \<times> int list \<times> (string \<times> int) list"

datatype exn = TypeError | ValueError | KeyError | AttributeError | RecursionError

datatype aval = IntV int | DictV ref | FunV fid

record fobj =
  f_name :: string
  f_doc :: "string option"
  f_dict :: "string \<rightharpoonup> aval"

record heap =
  funs :: "fid \<Rightarrow> fobj"
  dicts :: "ref \<Rightarrow> (key \<rightharpoonup> int)"
  next_fun :: fid
  next_dict :: ref
  stdout :: "string list"

type_synonym result = "(exn + int) \<times> heap"
type_synonym code = "int list \<Rightarrow> kwargs \<Rightarrow> heap \<Rightarrow> result"
type_synonym callable = "fid \<times> code"

definition empty_heap :: heap where
  "empty_heap = \<lparr>funs = (\<lambda>_. \<lparr>f_name = [], f_doc = None, f_dict = Map.empty\<rparr>),
     dicts = (\<lambda>_. Map.empty), next_fun = 0, next_dict = 0, stdout = []\<rparr>"

text \<open>A \<^verbatim>\<open>def\<close> statement creates a function object; \<^verbatim>\<open>{}\<close> creates a dict object.\<close>

definition def_function :: "string \<Rightarrow> string option \<Rightarrow> heap \<Rightarrow> fid \<times> heap" where
  "def_function nm d h =
     (next_fun h,
      h\<lparr>funs := (funs h)(next_fun h := \<lparr>f_name = nm, f_doc = d, f_dict = Map.empty\<rparr>),
        next_fun := next_fun h + 1\<rparr>)"

definition new_dict :: "heap \<Rightarrow> ref \<times> heap" where
  "new_dict h =
     (next_dict h,
      h\<lparr>dicts := (dicts h)(next_dict h := Map.empty), next_dict := next_dict h + 1\<rparr>)"

definition getattr :: "heap \<Rightarrow> fid \<Rightarrow> string \<Rightarrow> aval option" where
  "getattr h f a = f_dict (funs h f) a"

definition setattr :: "fid \<Rightarrow> string \<Rightarrow> aval \<Rightarrow> heap \<Rightarrow> heap" where
  "setattr f a v h = h\<lparr>funs := (funs h)(f := (funs h f)\<lparr>f_dict := (f_dict (funs h f))(a \<mapsto> v)\<rparr>)\<rparr>"

text \<open>\<^verbatim>\<open>d[key] = v\<close> on the dict object \<open>d\<close>.\<close>

definition setitem :: "ref \<Rightarrow> key \<Rightarrow> int \<Rightarrow> heap \<Rightarrow> heap" where
  "setitem d key v h = h\<lparr>dicts := (dicts h)(d := (dicts h d)(key \<mapsto> v))\<rparr>"

text \<open>Reading an integer attribute, and the statement \<^verbatim>\<open>f.a += n\<close>.\<close>

definition int_attr :: "heap \<Rightarrow> fid \<Rightarrow> string \<Rightarrow> exn + int" where
  "int_attr h f a =
     (case getattr h f a of
        None \<Rightarrow> Inl AttributeError
      | Some (IntV c) \<Rightarrow> Inr c
      | Some _ \<Rightarrow> Inl TypeError)"

definition iadd_attr :: "fid \<Rightarrow> string \<Rightarrow> int \<Rightarrow> heap \<Rightarrow> exn + heap" where
  "iadd_attr f a n h =
     (case int_attr h f a of
        Inl e \<Rightarrow> Inl e
      | Inr c \<Rightarrow> Inr (setattr f a (IntV (c + n)) h))"

text \<open>
  \<^verbatim>\<open>functools.update_wrapper(wrapper, wrapped)\<close>: assigns the wrapped function's
  \<^verbatim>\<open>__name__\<close> and \<^verbatim>\<open>__doc__\<close> to the wrapper, updates the wrapper's \<^verbatim>\<open>__dict__\<close> with
  the wrapped function's, and sets \<^verbatim>\<open>__wrapped__\<close>. (\<^verbatim>\<open>__module__\<close> and
  \<^verbatim>\<open>__qualname__\<close> are copied too; the program never reads them.)
\<close>

definition update_wrapper :: "fid \<Rightarrow> fid \<Rightarrow> heap \<Rightarrow> heap" where
  "update_wrapper wrapper wrapped h =
     h\<lparr>funs := (funs h)(wrapper :=
         \<lparr>f_name = f_name (funs h wrapped),
          f_doc = f_doc (funs h wrapped),
          f_dict = (f_dict (funs h wrapper) ++ f_dict (funs h wrapped))
                     (''__wrapped__'' \<mapsto> FunV wrapped)\<rparr>)\<rparr>"

subsection \<open>Strings and printing\<close>

fun str_nat :: "nat \<Rightarrow> string" where
  "str_nat n =
     (if n < 10 then [''0123456789'' ! n]
      else str_nat (n div 10) @ [''0123456789'' ! (n mod 10)])"

declare str_nat.simps [simp del]

definition str :: "int \<Rightarrow> string" where
  "str i = (if i < 0 then CHR ''-'' # str_nat (nat (- i)) else str_nat (nat i))"

fun join :: "string \<Rightarrow> string list \<Rightarrow> string" where
  "join sep [] = []"
| "join sep [x] = x"
| "join sep (x # y # ys) = x @ sep @ join sep (y # ys)"

text \<open>\<^verbatim>\<open>tab * n\<close>: the string repeated \<open>n\<close> times, empty for \<open>n \<le> 0\<close>.\<close>

definition repeat :: "string \<Rightarrow> int \<Rightarrow> string" where
  "repeat tab n = concat (replicate (nat n) tab)"

text \<open>\<^verbatim>\<open>print(a, b, ...)\<close> writes its arguments separated by single spaces as one line.\<close>

definition print :: "string list \<Rightarrow> heap \<Rightarrow> heap" where
  "print objs h = h\<lparr>stdout := stdout h @ [join '' '' objs]\<rparr>"

subsection \<open>Binding arguments to named parameters\<close>

text \<open>
  Calling \<^verbatim>\<open>def f(p1, ..., pn)\<close>: positional arguments fill the parameters from the left,
  keyword arguments fill the rest by name. Too many positional arguments, a parameter given
  twice, a missing parameter or an unknown keyword is a \<^verbatim>\<open>TypeError\<close> (\<open>None\<close> here).
\<close>

fun bind_params :: "string list \<Rightarrow> int list \<Rightarrow> kwargs \<Rightarrow> int list option" where
  "bind_params [] [] kws = (if kws = [] then Some [] else None)"
| "bind_params [] (v # vs) kws = None"
| "bind_params (p # ps) (v # vs) kws =
     (if p \<in> fst ` set kws then None
      else map_option ((#) v) (bind_params ps vs kws))"
| "bind_params (p # ps) [] kws =
     (case map_of kws p of
        None \<Rightarrow> None
      | Some v \<Rightarrow> map_option ((#) v) (bind_params ps [] (filter (\<lambda>kv. fst kv \<noteq> p) kws)))"

section \<open>The decorators\<close>

subsection \<open>disable\<close>

definition disable :: "callable \<Rightarrow> callable" where
  "disable func = func"

subsection \<open>countcalls\<close>

definition countcalls_wrapper :: "fid \<Rightarrow> callable \<Rightarrow> code" where
  "countcalls_wrapper wrapper func args kwargs h =
     (case iadd_attr wrapper ''calls'' 1 h of
        Inl e \<Rightarrow> (Inl e, h)
      | Inr h1 \<Rightarrow> snd func args kwargs h1)"

definition countcalls :: "callable \<Rightarrow> heap \<Rightarrow> callable \<times> heap" where
  "countcalls func h =
     (let (wrapper, h1) = def_function ''wrapper'' None h;
          h2 = setattr wrapper ''calls'' (IntV 0) h1;
          h3 = update_wrapper wrapper (fst func) h2
      in ((wrapper, countcalls_wrapper wrapper func), h3))"

subsection \<open>n_ary\<close>

text \<open>
  The wrapper is \<^verbatim>\<open>def wrapper(x, *args)\<close>: it takes no \<^verbatim>\<open>**kwargs\<close>, so the only keyword
  it accepts is \<^verbatim>\<open>x\<close>, and only when no positional argument was given. Its recursive call
  \<^verbatim>\<open>wrapper(*args)\<close> is to itself, not to the decorated global.
\<close>

fun n_ary_wrapper :: "callable \<Rightarrow> code" where
  "n_ary_wrapper func [] [] h = (Inl TypeError, h)"
| "n_ary_wrapper func [] [(k, v)] h = (if k = ''x'' then (Inr v, h) else (Inl TypeError, h))"
| "n_ary_wrapper func [] (kv # kv' # kws) h = (Inl TypeError, h)"
| "n_ary_wrapper func (x # args) (kv # kws) h = (Inl TypeError, h)"
| "n_ary_wrapper func [x] [] h = (Inr x, h)"
| "n_ary_wrapper func (x # y # args) [] h =
     (case n_ary_wrapper func (y # args) [] h of
        (Inl e, h1) \<Rightarrow> (Inl e, h1)
      | (Inr r, h1) \<Rightarrow> snd func [x, r] [] h1)"

definition n_ary :: "callable \<Rightarrow> heap \<Rightarrow> callable \<times> heap" where
  "n_ary func h =
     (let (wrapper, h1) = def_function ''wrapper'' None h;
          h2 = update_wrapper wrapper (fst func) h1
      in ((wrapper, n_ary_wrapper func), h2))"

subsection \<open>memo\<close>

text \<open>\<^verbatim>\<open>wrapper.results\<close>: the attribute must hold a dict.\<close>

definition results_of :: "heap \<Rightarrow> fid \<Rightarrow> exn + ref" where
  "results_of h wrapper =
     (case getattr h wrapper ''results'' of
        None \<Rightarrow> Inl AttributeError
      | Some (DictV d) \<Rightarrow> Inr d
      | Some _ \<Rightarrow> Inl TypeError)"

text \<open>\<^verbatim>\<open>return wrapper.results[key]\<close>\<close>

definition return_result :: "fid \<Rightarrow> key \<Rightarrow> heap \<Rightarrow> result" where
  "return_result wrapper key h =
     (case results_of h wrapper of
        Inl e \<Rightarrow> (Inl e, h)
      | Inr d \<Rightarrow>
          (case dicts h d key of
             None \<Rightarrow> (Inl KeyError, h)
           | Some v \<Rightarrow> (Inr v, h)))"

text \<open>\<^verbatim>\<open>wrapper.results[key] = v\<close>\<close>

definition store_result :: "fid \<Rightarrow> key \<Rightarrow> int \<Rightarrow> heap \<Rightarrow> exn + heap" where
  "store_result wrapper key v h =
     (case results_of h wrapper of
        Inl e \<Rightarrow> Inl e
      | Inr d \<Rightarrow> Inr (setitem d key v h))"

definition memo_key :: "callable \<Rightarrow> int list \<Rightarrow> kwargs \<Rightarrow> key" where
  "memo_key func args kwargs = (fst func, args, kwargs)"

definition memo_wrapper :: "fid \<Rightarrow> callable \<Rightarrow> code" where
  "memo_wrapper wrapper func args kwargs h =
     (let key = memo_key func args kwargs in
      case results_of h wrapper of
        Inl e \<Rightarrow> (Inl e, h)
      | Inr d \<Rightarrow>
          if dicts h d key = None then
            (case snd func args kwargs h of
               (Inl e, h1) \<Rightarrow> (Inl e, h1)
             | (Inr v, h1) \<Rightarrow>
                 (case store_result wrapper key v h1 of
                    Inl e \<Rightarrow> (Inl e, h1)
                  | Inr h2 \<Rightarrow> return_result wrapper key (update_wrapper wrapper (fst func) h2)))
          else return_result wrapper key h)"

definition memo :: "callable \<Rightarrow> heap \<Rightarrow> callable \<times> heap" where
  "memo func h =
     (let (wrapper, h1) = def_function ''wrapper'' None h;
          (d, h2) = new_dict h1;
          h3 = setattr wrapper ''results'' (DictV d) h2;
          h4 = update_wrapper wrapper (fst func) h3
      in ((wrapper, memo_wrapper wrapper func), h4))"

subsection \<open>trace\<close>

text \<open>
  The keyword arguments are rendered by \<^verbatim>\<open>for key, value in kwargs\<close>. Iterating a dict
  yields its keys, so each keyword \<^emph>\<open>name\<close> is unpacked into two variables: a name of
  exactly two characters gives its two characters, any other name raises \<^verbatim>\<open>ValueError\<close>
  (\<open>None\<close> here). The values of the keyword arguments are not looked at.
\<close>

fun render_kwargs :: "kwargs \<Rightarrow> string list option" where
  "render_kwargs [] = Some []"
| "render_kwargs ((k, v) # kws) =
     (case k of
        [key, val] \<Rightarrow> map_option ((#) ([key] @ ''='' @ [val])) (render_kwargs kws)
      | _ \<Rightarrow> None)"

definition full_str :: "int list \<Rightarrow> string list \<Rightarrow> string" where
  "full_str args ks =
     (let args_str = join '','' (map str args);
          kwargs_str = join '','' ks
      in if args_str \<noteq> [] \<and> kwargs_str \<noteq> [] then args_str @ '','' @ kwargs_str
         else args_str @ kwargs_str)"

definition trace_wrapper :: "string \<Rightarrow> fid \<Rightarrow> callable \<Rightarrow> code" where
  "trace_wrapper tab decorator func args kwargs h =
     (case render_kwargs kwargs of
        None \<Rightarrow> (Inl ValueError, h)
      | Some ks \<Rightarrow>
          (case iadd_attr decorator ''depth'' 1 h of
             Inl e \<Rightarrow> (Inl e, h)
           | Inr h1 \<Rightarrow>
               (case int_attr h1 decorator ''depth'' of
                  Inl e \<Rightarrow> (Inl e, h1)
                | Inr depth \<Rightarrow>
                    (case snd func args kwargs
                            (print [repeat tab depth, ''-->'', f_name (funs h1 (fst func)),
                                    ''('' @ full_str args ks @ '')''] h1) of
                       (Inl e, h2) \<Rightarrow> (Inl e, h2)
                     | (Inr r, h2) \<Rightarrow>
                         (case int_attr h2 decorator ''depth'' of
                            Inl e \<Rightarrow> (Inl e, h2)
                          | Inr depth' \<Rightarrow>
                              (let h3 = print [repeat tab depth', ''<--'',
                                               f_name (funs h2 (fst func)),
                                               ''('' @ full_str args ks @ '')'', ''=='', str r] h2
                               in case iadd_attr decorator ''depth'' (- 1) h3 of
                                    Inl e \<Rightarrow> (Inl e, h3)
                                  | Inr h4 \<Rightarrow> (Inr r, h4)))))))"

definition trace_decorator :: "string \<Rightarrow> fid \<Rightarrow> callable \<Rightarrow> heap \<Rightarrow> callable \<times> heap" where
  "trace_decorator tab decorator func h =
     (let (wrapper, h1) = def_function ''wrapper'' None h;
          h2 = update_wrapper wrapper (fst func) h1
      in ((wrapper, trace_wrapper tab decorator func), h2))"

definition trace :: "string \<Rightarrow> heap \<Rightarrow> (fid \<times> (callable \<Rightarrow> heap \<Rightarrow> callable \<times> heap)) \<times> heap" where
  "trace tab h =
     (let (decorator, h1) = def_function ''decorator'' None h;
          h2 = setattr decorator ''depth'' (IntV 0) h1
      in ((decorator, trace_decorator tab decorator), h2))"

subsection \<open>decorator\<close>

text \<open>
  \<^verbatim>\<open>decorator(dec)\<close> returns a decorator that applies \<open>dec\<close> and then copies the decorated
  function's metadata onto the result. (Its own \<^verbatim>\<open>update_wrapper(wrapper, dec)\<close> only touches
  the decorator objects themselves; the module never applies \<^verbatim>\<open>decorator\<close>.)
\<close>

definition decorator :: "(callable \<Rightarrow> heap \<Rightarrow> callable \<times> heap) \<Rightarrow> callable \<Rightarrow> heap \<Rightarrow> callable \<times> heap" where
  "decorator dec func h =
     (let (w, h1) = dec func h in (w, update_wrapper (fst w) (fst func) h1))"

section \<open>The demo functions\<close>

definition foo_body :: code where
  "foo_body args kwargs h =
     (case bind_params [''a'', ''b''] args kwargs of
        Some [a, b] \<Rightarrow> (Inr (a + b), h)
      | _ \<Rightarrow> (Inl TypeError, h))"

definition bar_body :: code where
  "bar_body args kwargs h =
     (case bind_params [''a'', ''b''] args kwargs of
        Some [a, b] \<Rightarrow> (Inr (a * b), h)
      | _ \<Rightarrow> (Inl TypeError, h))"

text \<open>
  The body of \<^verbatim>\<open>fib\<close> looks the name \<^verbatim>\<open>fib\<close> up in the module's globals when it runs, so
  its two recursive calls go to whatever the global is bound to: the parameter \<open>fib\<close>.
\<close>

definition fib_body :: "code \<Rightarrow> code" where
  "fib_body fib args kwargs h =
     (case bind_params [''n''] args kwargs of
        Some [n] \<Rightarrow>
          if n \<le> 1 then (Inr 1, h)
          else
            (case fib [n - 1] [] h of
               (Inl e, h1) \<Rightarrow> (Inl e, h1)
             | (Inr a, h1) \<Rightarrow>
                 (case fib [n - 2] [] h1 of
                    (Inl e, h2) \<Rightarrow> (Inl e, h2)
                  | (Inr b, h2) \<Rightarrow> (Inr (a + b), h2)))
      | _ \<Rightarrow> (Inl TypeError, h))"

definition fib_doc :: string where
  "fib_doc = [CHR 0x0A] @ ''    Returns n-th Fibonacci number'' @ [CHR 0x0A]
     @ ''    :param n: int'' @ [CHR 0x0A]
     @ ''    :return: n-th Fibonacci number'' @ [CHR 0x0A] @ ''    ''"

text \<open>
  The three decorated definitions, in the order the module executes them. Decorators apply
  bottom-up; the decorator expression \<^verbatim>\<open>trace("####")\<close> is evaluated before the function
  object of \<^verbatim>\<open>fib\<close> is created.
\<close>

definition load_foo :: "heap \<Rightarrow> callable \<times> heap" where
  "load_foo h =
     (let (f, h1) = def_function ''foo'' None h;
          (n, h2) = n_ary (f, foo_body) h1;
          (c, h3) = countcalls n h2
      in memo c h3)"

definition load_bar :: "heap \<Rightarrow> callable \<times> heap" where
  "load_bar h =
     (let (f, h1) = def_function ''bar'' None h;
          (n, h2) = n_ary (f, bar_body) h1;
          (m, h3) = memo n h2
      in countcalls m h3)"

definition load_fib :: "code \<Rightarrow> heap \<Rightarrow> callable \<times> heap" where
  "load_fib fib_global h =
     (let (tracer, h1) = trace ''####'' h;
          (f, h2) = def_function ''fib'' (Some fib_doc) h1;
          (m, h3) = memo (f, fib_body fib_global) h2;
          (t, h4) = snd tracer m h3
      in countcalls t h4)"

text \<open>
  The global \<^verbatim>\<open>fib\<close> is the decorated function, whose innermost layer calls the global
  again. The knot is tied with the interpreter's recursion limit: \<open>fib_global limit\<close> is
  the decorated function when \<open>limit\<close> nested calls of it are still allowed, and raises
  \<^verbatim>\<open>RecursionError\<close> when none is.
\<close>

primrec fib_global :: "nat \<Rightarrow> code" where
  "fib_global 0 = (\<lambda>args kwargs h. (Inl RecursionError, h))"
| "fib_global (Suc limit) =
     snd (fst (load_fib (fib_global limit) (snd (load_bar (snd (load_foo empty_heap))))))"

text \<open>The module after its definitions have run: the globals \<^verbatim>\<open>foo\<close>, \<^verbatim>\<open>bar\<close>, \<^verbatim>\<open>fib\<close>.\<close>

definition module :: "nat \<Rightarrow> (callable \<times> callable \<times> callable) \<times> heap" where
  "module limit =
     (let (foo, h1) = load_foo empty_heap;
          (bar, h2) = load_bar h1;
          (fib, h3) = load_fib (fib_global limit) h2
      in ((foo, bar, fib), h3))"

definition foo :: callable where
  "foo = fst (fst (module 0))"

definition bar :: callable where
  "bar = fst (snd (fst (module 0)))"

definition fib :: "nat \<Rightarrow> callable" where
  "fib limit = snd (snd (fst (module limit)))"

definition module_heap :: heap where
  "module_heap = snd (module 0)"

section \<open>Notions used to state the properties\<close>



text \<open>
  A caller making several invocations one after the other, going on after an invocation
  that raised.
\<close>

fun call_all :: "code \<Rightarrow> (int list \<times> kwargs) list \<Rightarrow> heap \<Rightarrow> heap" where
  "call_all c [] h = h"
| "call_all c ((args, kwargs) # cs) h = call_all c cs (snd (c args kwargs h))"

text \<open>
  Nesting of trace lines: reading the output top to bottom with a stack of open calls, an
  entry line \<open>indent --> call\<close> opens a call, and an exit line \<open>indent <-- call == result\<close>
  must close the innermost open call, with the same indentation and the same call text.
\<close>

fun well_nested :: "string list \<Rightarrow> (string \<times> string) list \<Rightarrow> bool" where
  "well_nested [] stack = (stack = [])"
| "well_nested (l # ls) stack =
     (let indent = takeWhile (\<lambda>c. c \<noteq> CHR '' '') l;
          rest = dropWhile (\<lambda>c. c \<noteq> CHR '' '') l
      in if take 5 rest = '' --> '' then well_nested ls ((indent, drop 5 rest) # stack)
         else if take 5 rest = '' <-- '' then
           (case stack of
              [] \<Rightarrow> False
            | (indent', call) # stack' \<Rightarrow>
                indent' = indent \<and> take (length call + 4) (drop 5 rest) = call @ '' == ''
                \<and> well_nested ls stack')
         else False)"



text \<open>
  \<open>extends c c'\<close>: wherever \<open>c\<close> ends without hitting the recursion limit, \<open>c'\<close> does
  exactly the same.
\<close>

definition extends :: "code \<Rightarrow> code \<Rightarrow> bool" where
  "extends c c' \<longleftrightarrow>
     (\<forall>args kwargs h. fst (c args kwargs h) \<noteq> Inl RecursionError
        \<longrightarrow> c' args kwargs h = c args kwargs h)"

text \<open>
  Conditions under which a memo cache lasts. \<open>cache_ok\<close>: the wrapper's \<^verbatim>\<open>results\<close> attribute
  is the dict \<open>d\<close> and the wrapped function has no \<^verbatim>\<open>results\<close> attribute of its own (which
  \<^verbatim>\<open>update_wrapper\<close> would copy over the wrapper's). \<open>keeps_cache\<close>: the code \<open>c\<close> preserves
  that, and removes or changes no entry of \<open>d\<close>.
\<close>

definition cache_ok :: "fid \<Rightarrow> callable \<Rightarrow> heap \<Rightarrow> ref \<Rightarrow> bool" where
  "cache_ok w func h d \<longleftrightarrow>
     getattr h w ''results'' = Some (DictV d) \<and> getattr h (fst func) ''results'' = None"

definition keeps_cache :: "fid \<Rightarrow> callable \<Rightarrow> code \<Rightarrow> bool" where
  "keeps_cache w func c \<longleftrightarrow>
     (\<forall>d args kwargs h. cache_ok w func h d \<longrightarrow>
        cache_ok w func (snd (c args kwargs h)) d \<and>
        (\<forall>key v. dicts h d key = Some v \<longrightarrow> dicts (snd (c args kwargs h)) d key = Some v))"

text \<open>
  \<open>leaves_cache\<close>: the code \<open>c\<close> preserves \<open>cache_ok\<close> and does not write to the dict \<open>d\<close>
  at all (as any callable does that is not itself memoized through this wrapper).
\<close>

definition leaves_cache :: "fid \<Rightarrow> callable \<Rightarrow> code \<Rightarrow> bool" where
  "leaves_cache w func c \<longleftrightarrow>
     (\<forall>d args kwargs h. cache_ok w func h d \<longrightarrow>
        cache_ok w func (snd (c args kwargs h)) d \<and>
        dicts (snd (c args kwargs h)) d = dicts h d)"

text \<open>What is observed of a call of \<^verbatim>\<open>fib\<close>: its result, \<^verbatim>\<open>fib.calls\<close>, the tracer's depth
  and the lines printed.\<close>

definition fib_outcome :: "result \<Rightarrow> (exn + int) \<times> aval option \<times> aval option \<times> string list" where
  "fib_outcome r = (fst r, getattr (snd r) 12 ''calls'', getattr (snd r) 8 ''depth'', stdout (snd r))"

section \<open>Observing the store after each primitive operation\<close>

lemma def_function_obs [simp]:
  "fst (def_function nm d h) = next_fun h"
  "next_fun (snd (def_function nm d h)) = next_fun h + 1"
  "next_dict (snd (def_function nm d h)) = next_dict h"
  "stdout (snd (def_function nm d h)) = stdout h"
  "dicts (snd (def_function nm d h)) = dicts h"
  "getattr (snd (def_function nm d h)) f a = (if f = next_fun h then None else getattr h f a)"
  "f_name (funs (snd (def_function nm d h)) f) = (if f = next_fun h then nm else f_name (funs h f))"
  "f_doc (funs (snd (def_function nm d h)) f) = (if f = next_fun h then d else f_doc (funs h f))"
  by (simp_all add: def_function_def getattr_def)

lemma new_dict_obs [simp]:
  "fst (new_dict h) = next_dict h"
  "next_fun (snd (new_dict h)) = next_fun h"
  "next_dict (snd (new_dict h)) = next_dict h + 1"
  "stdout (snd (new_dict h)) = stdout h"
  "dicts (snd (new_dict h)) r = (if r = next_dict h then Map.empty else dicts h r)"
  "getattr (snd (new_dict h)) f a = getattr h f a"
  "funs (snd (new_dict h)) = funs h"
  by (simp_all add: new_dict_def getattr_def)

lemma setattr_obs [simp]:
  "next_fun (setattr g b v h) = next_fun h"
  "next_dict (setattr g b v h) = next_dict h"
  "stdout (setattr g b v h) = stdout h"
  "dicts (setattr g b v h) = dicts h"
  "getattr (setattr g b v h) f a = (if f = g \<and> a = b then Some v else getattr h f a)"
  "f_name (funs (setattr g b v h) f) = f_name (funs h f)"
  "f_doc (funs (setattr g b v h) f) = f_doc (funs h f)"
  by (simp_all add: setattr_def getattr_def)

lemma update_wrapper_obs [simp]:
  "next_fun (update_wrapper w g h) = next_fun h"
  "next_dict (update_wrapper w g h) = next_dict h"
  "stdout (update_wrapper w g h) = stdout h"
  "dicts (update_wrapper w g h) = dicts h"
  "getattr (update_wrapper w g h) f a =
     (if f = w then
        (if a = ''__wrapped__'' then Some (FunV g)
         else (case getattr h g a of Some v \<Rightarrow> Some v | None \<Rightarrow> getattr h w a))
      else getattr h f a)"
  "f_name (funs (update_wrapper w g h) f) = (if f = w then f_name (funs h g) else f_name (funs h f))"
  "f_doc (funs (update_wrapper w g h) f) = (if f = w then f_doc (funs h g) else f_doc (funs h f))"
  by (simp_all add: update_wrapper_def getattr_def map_add_def split: option.splits)

lemma print_obs [simp]:
  "next_fun (print objs h) = next_fun h"
  "next_dict (print objs h) = next_dict h"
  "stdout (print objs h) = stdout h @ [join '' '' objs]"
  "dicts (print objs h) = dicts h"
  "getattr (print objs h) f a = getattr h f a"
  "funs (print objs h) = funs h"
  by (simp_all add: print_def getattr_def)

lemma setitem_obs [simp]:
  "next_fun (setitem r k v h) = next_fun h"
  "next_dict (setitem r k v h) = next_dict h"
  "stdout (setitem r k v h) = stdout h"
  "dicts (setitem r k v h) r' = (if r' = r then (dicts h r)(k \<mapsto> v) else dicts h r')"
  "getattr (setitem r k v h) f a = getattr h f a"
  "funs (setitem r k v h) = funs h"
  by (simp_all add: setitem_def getattr_def)

lemma empty_heap_obs [simp]:
  "next_fun empty_heap = 0"
  "next_dict empty_heap = 0"
  "stdout empty_heap = []"
  "dicts empty_heap r = Map.empty"
  "getattr empty_heap f a = None"
  "f_name (funs empty_heap f) = []"
  "f_doc (funs empty_heap f) = None"
  by (simp_all add: empty_heap_def getattr_def)

section \<open>The loaded module\<close>

lemmas deco_defs = n_ary_def countcalls_def memo_def trace_def trace_decorator_def


lemmas load_defs = load_foo_def load_bar_def load_fib_def deco_defs split_def Let_def

lemma foo_eq: "foo = (3, memo_wrapper 3 (2, countcalls_wrapper 2 (1, n_ary_wrapper (0, foo_body))))"
  by (simp add: foo_def module_def load_defs eval_nat_numeral)

lemma bar_eq: "bar = (7, countcalls_wrapper 7 (6, memo_wrapper 6 (5, n_ary_wrapper (4, bar_body))))"
  by (simp add: bar_def module_def load_defs eval_nat_numeral)

lemma fib_global_Suc: "fib_global (Suc k) = countcalls_wrapper 12 (11, trace_wrapper ''####'' 8 (10, memo_wrapper 10 (9, fib_body (fib_global k))))"
  by (simp add: load_defs eval_nat_numeral)

lemma fib_eq: "fib k = (12, fib_global (Suc k))"
  by (simp add: fib_def module_def load_defs eval_nat_numeral)

declare fib_global.simps(2) [simp del]

lemma fib_global_numeral:
  "fib_global (numeral v) = countcalls_wrapper 12 (11, trace_wrapper ''####'' 8 (10, memo_wrapper 10 (9, fib_body (fib_global (pred_numeral v)))))"
  "fib_global 1 = countcalls_wrapper 12 (11, trace_wrapper ''####'' 8 (10, memo_wrapper 10 (9, fib_body (fib_global 0))))"
  by (simp_all add: numeral_eq_Suc fib_global_Suc)

lemma module_heap_obs:
  "stdout module_heap = []"
  "dicts module_heap r = Map.empty"
  "next_fun module_heap = 13"
  "next_dict module_heap = 3"
  "getattr module_heap 0 ''calls'' = None"
  "getattr module_heap 0 ''results'' = None"
  "getattr module_heap 0 ''depth'' = None"
  "getattr module_heap 0 ''__wrapped__'' = None"
  "getattr module_heap 1 ''calls'' = None"
  "getattr module_heap 1 ''results'' = None"
  "getattr module_heap 1 ''depth'' = None"
  "getattr module_heap 1 ''__wrapped__'' = Some (FunV 0)"
  "getattr module_heap 2 ''calls'' = Some (IntV 0)"
  "getattr module_heap 2 ''results'' = None"
  "getattr module_heap 2 ''depth'' = None"
  "getattr module_heap 2 ''__wrapped__'' = Some (FunV 1)"
  "getattr module_heap 3 ''calls'' = Some (IntV 0)"
  "getattr module_heap 3 ''results'' = Some (DictV 0)"
  "getattr module_heap 3 ''depth'' = None"
  "getattr module_heap 3 ''__wrapped__'' = Some (FunV 2)"
  "getattr module_heap 4 ''calls'' = None"
  "getattr module_heap 4 ''results'' = None"
  "getattr module_heap 4 ''depth'' = None"
  "getattr module_heap 4 ''__wrapped__'' = None"
  "getattr module_heap 5 ''calls'' = None"
  "getattr module_heap 5 ''results'' = None"
  "getattr module_heap 5 ''depth'' = None"
  "getattr module_heap 5 ''__wrapped__'' = Some (FunV 4)"
  "getattr module_heap 6 ''calls'' = None"
  "getattr module_heap 6 ''results'' = Some (DictV 1)"
  "getattr module_heap 6 ''depth'' = None"
  "getattr module_heap 6 ''__wrapped__'' = Some (FunV 5)"
  "getattr module_heap 7 ''calls'' = Some (IntV 0)"
  "getattr module_heap 7 ''results'' = Some (DictV 1)"
  "getattr module_heap 7 ''depth'' = None"
  "getattr module_heap 7 ''__wrapped__'' = Some (FunV 6)"
  "getattr module_heap 8 ''calls'' = None"
  "getattr module_heap 8 ''results'' = None"
  "getattr module_heap 8 ''depth'' = Some (IntV 0)"
  "getattr module_heap 8 ''__wrapped__'' = None"
  "getattr module_heap 9 ''calls'' = None"
  "getattr module_heap 9 ''results'' = None"
  "getattr module_heap 9 ''depth'' = None"
  "getattr module_heap 9 ''__wrapped__'' = None"
  "getattr module_heap 10 ''calls'' = None"
  "getattr module_heap 10 ''results'' = Some (DictV 2)"
  "getattr module_heap 10 ''depth'' = None"
  "getattr module_heap 10 ''__wrapped__'' = Some (FunV 9)"
  "getattr module_heap 11 ''calls'' = None"
  "getattr module_heap 11 ''results'' = Some (DictV 2)"
  "getattr module_heap 11 ''depth'' = None"
  "getattr module_heap 11 ''__wrapped__'' = Some (FunV 10)"
  "getattr module_heap 12 ''calls'' = Some (IntV 0)"
  "getattr module_heap 12 ''results'' = Some (DictV 2)"
  "getattr module_heap 12 ''depth'' = None"
  "getattr module_heap 12 ''__wrapped__'' = Some (FunV 11)"
  "f_name (funs module_heap 0) = ''foo''"
  "f_name (funs module_heap 1) = ''foo''"
  "f_name (funs module_heap 2) = ''foo''"
  "f_name (funs module_heap 3) = ''foo''"
  "f_name (funs module_heap 4) = ''bar''"
  "f_name (funs module_heap 5) = ''bar''"
  "f_name (funs module_heap 6) = ''bar''"
  "f_name (funs module_heap 7) = ''bar''"
  "f_name (funs module_heap 8) = ''decorator''"
  "f_name (funs module_heap 9) = ''fib''"
  "f_name (funs module_heap 10) = ''fib''"
  "f_name (funs module_heap 11) = ''fib''"
  "f_name (funs module_heap 12) = ''fib''"
  by (simp_all add: module_heap_def module_def load_defs)


lemmas run_defs = memo_wrapper_def countcalls_wrapper_def trace_wrapper_def memo_key_def
  results_of_def return_result_def store_result_def iadd_attr_def int_attr_def
  foo_body_def bar_body_def fib_body_def full_str_def repeat_def str_def str_nat.simps Let_def

section \<open>The n-ary adapter\<close>

lemma n_ary_of: "snd (fst (n_ary func h0)) = n_ary_wrapper func"
  by (simp add: n_ary_def split_def Let_def)

text \<open>
  C2. For every binary function \<open>func\<close>, decorated in any store \<open>h0\<close>, the variadic function
  \<open>g = n_ary(func)\<close>, that is \<open>snd (fst (n_ary func h0))\<close>, returns its single argument
  unchanged, in an unchanged store and whatever \<open>func\<close> is (so without calling it); with two
  arguments it is \<open>func(x, y)\<close>; with three or more it is \<open>func(x, g(y, z, ...))\<close>, the inner
  call first, an exception of the inner call propagating.
\<close>

theorem n_ary_contract:
  "snd (fst (n_ary func h0)) [x] [] h = (Inr x, h) \<and>
   snd (fst (n_ary func h0)) [x, y] [] h = snd func [x, y] [] h \<and>
   snd (fst (n_ary func h0)) (x # y # z # zs) [] h =
     (case snd (fst (n_ary func h0)) (y # z # zs) [] h of
        (Inl e, h1) \<Rightarrow> (Inl e, h1)
      | (Inr r, h1) \<Rightarrow> snd func [x, r] [] h1)"
  by (simp add: n_ary_of)

text \<open>For a binary function without effects the wrapper is the right fold of its arguments.\<close>

lemma n_ary_pure:
  assumes "\<And>a b h. snd func [a, b] [] h = (Inr (f a b), h)"
  shows "n_ary_wrapper func (x # xs) [] h = (Inr (foldr f (butlast (x # xs)) (last (x # xs))), h)"
proof (induction xs arbitrary: x)
  case Nil
  show ?case by simp
next
  case (Cons y ys)
  show ?case using Cons.IH [of y] by (simp add: assms)
qed

text \<open>The adapter has no effect of its own on the store.\<close>

lemma bar_body_heap: "snd (bar_body args kwargs h) = h"
  by (simp add: bar_body_def split: option.splits list.splits)

lemma foo_body_heap: "snd (foo_body args kwargs h) = h"
  by (simp add: foo_body_def split: option.splits list.splits)

lemma n_ary_heap:
  assumes "\<And>a k h. snd (snd func a k h) = h"
  shows "snd (n_ary_wrapper func args kwargs h) = h"
  using assms
proof (induction func args kwargs h rule: n_ary_wrapper.induct)
  case (6 func x y args h)
  obtain r h1 where c: "n_ary_wrapper func (y # args) [] h = (r, h1)"
    by (cases "n_ary_wrapper func (y # args) [] h")
  with "6.IH" "6.prems" have "h1 = h" by simp
  with c show ?case by (cases r) (simp_all add: "6.prems")
qed simp_all

text \<open>
  C10. Called with no argument at all, the n-ary wrapper raises \<^verbatim>\<open>TypeError\<close> (its parameter
  \<open>x\<close> is missing); the store is unchanged and the result does not depend on \<open>func\<close>, which
  is not called.
\<close>

theorem n_ary_zero_arguments: "n_ary_wrapper func [] [] h = (Inl TypeError, h)"
  by simp

section \<open>The memoizer\<close>

lemma return_result_Inr:
  "return_result w key h = (Inr r, h1) \<Longrightarrow>
     h1 = h \<and> (\<exists>d. results_of h w = Inr d \<and> dicts h d key = Some r)"
  by (auto simp: return_result_def split: sum.splits option.splits)

lemma memo_wrapper_Inr:
  "memo_wrapper w func args kwargs h = (Inr r, h1) \<Longrightarrow>
     \<exists>d. results_of h1 w = Inr d \<and> dicts h1 d (memo_key func args kwargs) = Some r"
  by (auto simp: memo_wrapper_def Let_def split: sum.splits if_splits prod.splits
           dest!: return_result_Inr)

lemma memo_hit:
  "results_of h w = Inr d \<Longrightarrow> dicts h d (memo_key func args kwargs) = Some r \<Longrightarrow>
     memo_wrapper w func args kwargs h = (Inr r, h)"
  by (simp add: memo_wrapper_def return_result_def)

lemma memo_repeat:
  assumes "memo_wrapper w func args kwargs h = (Inr r, h1)"
  shows "memo_wrapper w (fst func, c) args kwargs h1 = (Inr r, h1)"
proof -
  from memo_wrapper_Inr [OF assms] obtain d where
    "results_of h1 w = Inr d" "dicts h1 d (memo_key func args kwargs) = Some r" by blast
  moreover have "memo_key (fst func, c) args kwargs = memo_key func args kwargs"
    by (simp add: memo_key_def)
  ultimately show ?thesis using memo_hit [of h1 w d "(fst func, c)" args kwargs r] by simp
qed

lemma keeps_cacheD:
  "keeps_cache w func c \<Longrightarrow> cache_ok w func h d \<Longrightarrow>
     cache_ok w func (snd (c args kwargs h)) d \<and>
     (\<forall>key v. dicts h d key = Some v \<longrightarrow> dicts (snd (c args kwargs h)) d key = Some v)"
  unfolding keeps_cache_def by blast

lemma cache_ok_results: "cache_ok w func h d \<Longrightarrow> results_of h w = Inr d"
  by (simp add: cache_ok_def results_of_def)

lemma keeps_cache_memo:
  assumes k: "keeps_cache w func (snd func)" and ne: "w \<noteq> fst func"
  shows "keeps_cache w func (memo_wrapper w func)"
  unfolding keeps_cache_def
proof (intro allI impI)
  fix d args kwargs h
  assume ok: "cache_ok w func h d"
  let ?key = "memo_key func args kwargs"
  let ?h' = "snd (memo_wrapper w func args kwargs h)"
  show "cache_ok w func ?h' d \<and> (\<forall>key v. dicts h d key = Some v \<longrightarrow> dicts ?h' d key = Some v)"
  proof (cases "dicts h d ?key")
    case (Some v)
    with ok cache_ok_results [OF ok] show ?thesis
      by (simp add: memo_wrapper_def return_result_def)
  next
    case None
    obtain r h1 where c: "snd func args kwargs h = (r, h1)" by (cases "snd func args kwargs h")
    from keeps_cacheD [OF k ok, of args kwargs] c
    have ok1: "cache_ok w func h1 d"
      and keep1: "\<And>key v. dicts h d key = Some v \<Longrightarrow> dicts h1 d key = Some v" by auto
    show ?thesis
    proof (cases r)
      case (Inl e)
      with None c ok1 keep1 cache_ok_results [OF ok] show ?thesis
        by (simp add: memo_wrapper_def)
    next
      case (Inr v)
      let ?h3 = "update_wrapper w (fst func) (setitem d ?key v h1)"
      have h': "?h' = ?h3"
        using None c Inr cache_ok_results [OF ok] cache_ok_results [OF ok1] ok1 ne
        by (simp add: memo_wrapper_def store_result_def return_result_def results_of_def
              cache_ok_def)
      have "cache_ok w func ?h3 d" using ok1 ne by (simp add: cache_ok_def)
      moreover have "dicts ?h3 d key = Some u" if "dicts h d key = Some u" for key u
        using keep1 [OF that] that None by auto
      ultimately show ?thesis unfolding h' by blast
    qed
  qed
qed

lemma keeps_cache_all:
  assumes "keeps_cache w func c" "cache_ok w func h d"
  shows "cache_ok w func (call_all c cs h) d \<and>
         (\<forall>key v. dicts h d key = Some v \<longrightarrow> dicts (call_all c cs h) d key = Some v)"
  using assms(2)
proof (induction cs arbitrary: h)
  case Nil
  then show ?case by simp
next
  case (Cons a cs)
  obtain args kwargs where a: "a = (args, kwargs)" by (cases a)
  from keeps_cacheD [OF assms(1) Cons.prems, of args kwargs]
  have ok1: "cache_ok w func (snd (c args kwargs h)) d"
    and keep1: "\<forall>key v. dicts h d key = Some v \<longrightarrow> dicts (snd (c args kwargs h)) d key = Some v"
    by auto
  from Cons.IH [OF ok1] keep1 a show ?case by auto
qed

lemma memo_lifetime:
  assumes first: "memo_wrapper w func args kwargs h = (Inr r, h1)"
    and k: "keeps_cache w func (snd func)" and ne: "w \<noteq> fst func"
    and ok: "cache_ok w func h1 d"
  shows "memo_wrapper w (fst func, c) args kwargs (call_all (memo_wrapper w func) cs h1)
           = (Inr r, call_all (memo_wrapper w func) cs h1)"
proof -
  let ?h2 = "call_all (memo_wrapper w func) cs h1"
  from memo_wrapper_Inr [OF first] cache_ok_results [OF ok]
  have "dicts h1 d (memo_key func args kwargs) = Some r" by auto
  with keeps_cache_all [OF keeps_cache_memo [OF k ne] ok, of cs]
  have "cache_ok w func ?h2 d" "dicts ?h2 d (memo_key func args kwargs) = Some r" by blast+
  moreover have "memo_key (fst func, c) args kwargs = memo_key func args kwargs"
    by (simp add: memo_key_def)
  ultimately show ?thesis
    using memo_hit [of ?h2 w d "(fst func, c)" args kwargs r] cache_ok_results [of w func ?h2 d]
    by simp
qed

lemma keeps_cache_foo:
  "keeps_cache 3 (2, countcalls_wrapper 2 (1, n_ary_wrapper (0, foo_body)))
     (countcalls_wrapper 2 (1, n_ary_wrapper (0, foo_body)))"
proof -
  have "snd (n_ary_wrapper (0, foo_body) a k h) = h" for a k h
    by (rule n_ary_heap) (simp add: foo_body_heap)
  then show ?thesis
    by (auto simp: keeps_cache_def cache_ok_def countcalls_wrapper_def iadd_attr_def int_attr_def
             split: sum.splits option.splits aval.splits)
qed


lemma memo_of:
  "fst (memo func h0) = (next_fun h0, memo_wrapper (next_fun h0) func)"
  by (simp add: memo_def split_def Let_def)

lemma leaves_cacheD:
  "leaves_cache w func c \<Longrightarrow> cache_ok w func h d \<Longrightarrow>
     cache_ok w func (snd (c args kwargs h)) d \<and> dicts (snd (c args kwargs h)) d = dicts h d"
  unfolding leaves_cache_def by blast

lemma memo_miss_runs:
  assumes ok: "cache_ok w func h d" and ne: "w \<noteq> fst func"
    and lc: "leaves_cache w func (snd func)"
    and absent: "dicts h d (fst func, args, kwargs) = None"
  shows "memo_wrapper w func args kwargs h =
     (case snd func args kwargs h of
        (Inl e, h1) \<Rightarrow> (Inl e, h1)
      | (Inr v, h1) \<Rightarrow>
          (Inr v, update_wrapper w (fst func) (setitem d (fst func, args, kwargs) v h1)))"
proof -
  obtain r h1 where c: "snd func args kwargs h = (r, h1)" by (cases "snd func args kwargs h")
  from leaves_cacheD [OF lc ok, of args kwargs] c have ok1: "cache_ok w func h1 d" by simp
  show ?thesis
  proof (cases r)
    case (Inl e)
    with c absent cache_ok_results [OF ok] show ?thesis
      by (simp add: memo_wrapper_def memo_key_def)
  next
    case (Inr v)
    with c absent cache_ok_results [OF ok] cache_ok_results [OF ok1] ok1 ne show ?thesis
      by (simp add: memo_wrapper_def memo_key_def store_result_def return_result_def
            results_of_def cache_ok_def)
  qed
qed

lemma memo_new_keys:
  assumes ok: "cache_ok w func h d" and ne: "w \<noteq> fst func"
    and lc: "leaves_cache w func (snd func)"
  shows "cache_ok w func (snd (memo_wrapper w func args kwargs h)) d \<and>
         (\<forall>key. key \<noteq> (fst func, args, kwargs) \<longrightarrow>
            dicts (snd (memo_wrapper w func args kwargs h)) d key = dicts h d key)"
proof (cases "dicts h d (fst func, args, kwargs)")
  case (Some v)
  with ok cache_ok_results [OF ok] show ?thesis
    by (simp add: memo_wrapper_def memo_key_def return_result_def)
next
  case None
  obtain r h1 where c: "snd func args kwargs h = (r, h1)" by (cases "snd func args kwargs h")
  from leaves_cacheD [OF lc ok, of args kwargs] c
  have ok1: "cache_ok w func h1 d" and same: "dicts h1 d = dicts h d" by simp_all
  show ?thesis
  proof (cases r)
    case (Inl e)
    with memo_miss_runs [OF ok ne lc None] c ok1 same show ?thesis by simp
  next
    case (Inr v)
    with memo_miss_runs [OF ok ne lc None] c ok1 same ne show ?thesis
      by (simp add: cache_ok_def)
  qed
qed

lemma memo_absent_after:
  assumes ne: "w \<noteq> fst func" and lc: "leaves_cache w func (snd func)"
  shows "cache_ok w func h d \<Longrightarrow> dicts h d (fst func, args', kwargs') = None \<Longrightarrow>
         (args', kwargs') \<notin> set cs \<Longrightarrow>
         cache_ok w func (call_all (memo_wrapper w func) cs h) d \<and>
         dicts (call_all (memo_wrapper w func) cs h) d (fst func, args', kwargs') = None"
proof (induction cs arbitrary: h)
  case Nil
  then show ?case by simp
next
  case (Cons a cs)
  obtain args kwargs where a: "a = (args, kwargs)" by (cases a)
  with Cons.prems have diff: "(fst func, args', kwargs') \<noteq> (fst func, args, kwargs)"
    and rest: "(args', kwargs') \<notin> set cs" by auto
  from memo_new_keys [OF Cons.prems(1) ne lc, of args kwargs] diff Cons.prems(2)
  have "cache_ok w func (snd (memo_wrapper w func args kwargs h)) d"
    and "dicts (snd (memo_wrapper w func args kwargs h)) d (fst func, args', kwargs') = None"
    by simp_all
  from Cons.IH [OF this rest] a show ?case by simp
qed

lemma memo_distinct_calls:
  assumes "memo func h0 = ((w, g), h0')" and "w \<noteq> fst func"
    and "leaves_cache w func (snd func)" and "cache_ok w func h d"
    and "dicts h d (fst func, args', kwargs') = None" and "(args', kwargs') \<notin> set cs"
  shows "g args' kwargs' (call_all g cs h) =
     (case snd func args' kwargs' (call_all g cs h) of
        (Inl e, h1) \<Rightarrow> (Inl e, h1)
      | (Inr v, h1) \<Rightarrow>
          (Inr v, update_wrapper w (fst func) (setitem d (fst func, args', kwargs') v h1)))"
proof -
  from assms(1) memo_of [of func h0] have g: "g = memo_wrapper w func" by simp
  from memo_absent_after [OF assms(2,3,4,5,6)]
  have "cache_ok w func (call_all g cs h) d"
    and "dicts (call_all g cs h) d (fst func, args', kwargs') = None"
    unfolding g by simp_all
  from memo_miss_runs [OF this(1) assms(2,3) this(2)] show ?thesis unfolding g .
qed

lemma leaves_cache_foo:
  "leaves_cache 3 (2, countcalls_wrapper 2 (1, n_ary_wrapper (0, foo_body)))
     (countcalls_wrapper 2 (1, n_ary_wrapper (0, foo_body)))"
proof -
  have "snd (n_ary_wrapper (0, foo_body) a k h) = h" for a k h
    by (rule n_ary_heap) (simp add: foo_body_heap)
  then show ?thesis
    by (auto simp: leaves_cache_def cache_ok_def countcalls_wrapper_def iadd_attr_def int_attr_def
             split: sum.splits option.splits aval.splits)
qed

text \<open>
  C3. When a call of a memoized function has returned \<open>r\<close>, a second call with the same
  arguments, in the store the first call left, returns \<open>r\<close> again and leaves the store
  as it is, whatever code \<open>c\<close> stands behind the wrapped function's identity: the
  underlying callable is not invoked. The same holds after any number of further calls
  \<open>cs\<close> of the memoized function, as long as the underlying callable leaves the cache
  alone (\<open>keeps_cache\<close>): the entry lasts for the wrapper's lifetime.
\<close>

theorem memo_second_call:
  assumes "memo_wrapper w func args kwargs h = (Inr r, h1)"
  shows "memo_wrapper w (fst func, c) args kwargs h1 = (Inr r, h1) \<and>
         (keeps_cache w func (snd func) \<and> w \<noteq> fst func \<and> cache_ok w func h1 d \<longrightarrow>
            memo_wrapper w (fst func, c) args kwargs (call_all (memo_wrapper w func) cs h1)
              = (Inr r, call_all (memo_wrapper w func) cs h1))"
  using memo_repeat [OF assms] memo_lifetime [OF assms] by blast

theorem memo_second_call_witness:
  "fst (snd foo [4, 3] [] module_heap) = Inr 7 \<and>
   keeps_cache 3 (2, countcalls_wrapper 2 (1, n_ary_wrapper (0, foo_body)))
     (countcalls_wrapper 2 (1, n_ary_wrapper (0, foo_body))) \<and>
   cache_ok 3 (2, countcalls_wrapper 2 (1, n_ary_wrapper (0, foo_body)))
     (snd (snd foo [4, 3] [] module_heap)) 0 \<and>
   memo_wrapper 3 (2, \<lambda>args kwargs h. (Inl TypeError, h)) [4, 3] []
       (snd (snd foo [4, 3] [] module_heap))
     = (Inr 7, snd (snd foo [4, 3] [] module_heap)) \<and>
   memo_wrapper 3 (2, \<lambda>args kwargs h. (Inl TypeError, h)) [4, 3] []
       (call_all (snd foo) [([4, 3, 2], []), ([3, 4], [])] (snd (snd foo [4, 3] [] module_heap)))
     = (Inr 7,
        call_all (snd foo) [([4, 3, 2], []), ([3, 4], [])] (snd (snd foo [4, 3] [] module_heap)))"
proof -
  let ?F = "(2, countcalls_wrapper 2 (1, n_ary_wrapper (0, foo_body)))"
  let ?h1 = "snd (snd foo [4, 3] [] module_heap)"
  have r: "fst (snd foo [4, 3] [] module_heap) = Inr 7"
    by (simp add: foo_eq run_defs module_heap_obs)
  then have first: "memo_wrapper 3 ?F [4, 3] [] module_heap = (Inr 7, ?h1)"
    by (simp add: foo_eq prod_eq_iff)
  have ok: "cache_ok 3 ?F ?h1 0"
    by (simp add: cache_ok_def foo_eq run_defs module_heap_obs)
  have k: "keeps_cache 3 ?F (snd ?F)"
    using keeps_cache_foo by simp
  from memo_second_call [OF first, of "\<lambda>args kwargs h. (Inl TypeError, h)" 0
      "[([4, 3, 2], []), ([3, 4], [])]"] r ok k
  show ?thesis by (simp add: foo_eq del: call_all.simps)
qed

section \<open>The recursion limit\<close>

text \<open>
  A call that ends without \<^verbatim>\<open>RecursionError\<close> does the same under any larger limit: each
  layer only passes a \<^verbatim>\<open>RecursionError\<close> of the layer below upwards.
\<close>

lemma extends_refl: "extends c c"
  by (simp add: extends_def)

lemma extends_trans: "extends a b \<Longrightarrow> extends b c \<Longrightarrow> extends a c"
  by (auto simp: extends_def)

lemma extends_call:
  "extends f g \<Longrightarrow> fst (f args kwargs h) \<noteq> Inl RecursionError \<Longrightarrow> g args kwargs h = f args kwargs h"
  by (simp add: extends_def)

lemma extends_countcalls:
  assumes "extends f g"
  shows "extends (countcalls_wrapper w (i, f)) (countcalls_wrapper w (i, g))"
  unfolding extends_def
proof (intro allI impI)
  fix args kwargs h
  assume a: "fst (countcalls_wrapper w (i, f) args kwargs h) \<noteq> Inl RecursionError"
  show "countcalls_wrapper w (i, g) args kwargs h = countcalls_wrapper w (i, f) args kwargs h"
  proof (cases "iadd_attr w ''calls'' 1 h")
    case (Inl e)
    then show ?thesis by (simp add: countcalls_wrapper_def)
  next
    case (Inr h1)
    with a have "fst (f args kwargs h1) \<noteq> Inl RecursionError"
      by (simp add: countcalls_wrapper_def)
    from extends_call [OF assms this] Inr show ?thesis
      by (simp add: countcalls_wrapper_def)
  qed
qed

lemma extends_memo:
  assumes "extends f g"
  shows "extends (memo_wrapper w (i, f)) (memo_wrapper w (i, g))"
  unfolding extends_def
proof (intro allI impI)
  fix args kwargs h
  assume a: "fst (memo_wrapper w (i, f) args kwargs h) \<noteq> Inl RecursionError"
  show "memo_wrapper w (i, g) args kwargs h = memo_wrapper w (i, f) args kwargs h"
  proof (cases "fst (f args kwargs h) = Inl RecursionError")
    case True
    with a show ?thesis
      by (auto simp: memo_wrapper_def memo_key_def Let_def split: sum.splits prod.splits if_splits)
  next
    case False
    from extends_call [OF assms this] have eq: "g args kwargs h = f args kwargs h" .
    show ?thesis
      unfolding memo_wrapper_def memo_key_def fst_conv snd_conv eq ..
  qed
qed

lemma extends_trace:
  assumes "extends f g"
  shows "extends (trace_wrapper tab d (i, f)) (trace_wrapper tab d (i, g))"
  unfolding extends_def
proof (intro allI impI)
  fix args kwargs h
  assume a: "fst (trace_wrapper tab d (i, f) args kwargs h) \<noteq> Inl RecursionError"
  show "trace_wrapper tab d (i, g) args kwargs h = trace_wrapper tab d (i, f) args kwargs h"
  proof (cases "render_kwargs kwargs")
    case None
    then show ?thesis by (simp add: trace_wrapper_def)
  next
    case (Some ks)
    show ?thesis
    proof (cases "iadd_attr d ''depth'' 1 h")
      case (Inl e)
      with Some show ?thesis by (simp add: trace_wrapper_def)
    next
      case h1: (Inr h1)
      show ?thesis
      proof (cases "int_attr h1 d ''depth''")
        case (Inl e)
        with Some h1 show ?thesis by (simp add: trace_wrapper_def)
      next
        case (Inr depth)
        let ?h = "print [repeat tab depth, ''-->'', f_name (funs h1 i), ''('' @ full_str args ks @ '')''] h1"
        from a Some h1 Inr have "fst (f args kwargs ?h) \<noteq> Inl RecursionError"
          by (auto simp: trace_wrapper_def split: prod.splits sum.splits)
        from extends_call [OF assms this] have eq: "g args kwargs ?h = f args kwargs ?h" .
        show ?thesis
          unfolding trace_wrapper_def fst_conv snd_conv Some h1 Inr option.case sum.case eq ..
      qed
    qed
  qed
qed

lemma extends_fib_body:
  assumes "extends f g"
  shows "extends (fib_body f) (fib_body g)"
  unfolding extends_def
proof (intro allI impI)
  fix args kwargs h
  assume a: "fst (fib_body f args kwargs h) \<noteq> Inl RecursionError"
  show "fib_body g args kwargs h = fib_body f args kwargs h"
  proof (cases "\<exists>n. bind_params [''n''] args kwargs = Some [n] \<and> \<not> n \<le> 1")
    case False
    then show ?thesis
      by (auto simp: fib_body_def split: option.splits list.splits)
  next
    case True
    then obtain n where n: "bind_params [''n''] args kwargs = Some [n]" "\<not> n \<le> 1" by blast
    from a n have 1: "fst (f [n - 1] [] h) \<noteq> Inl RecursionError"
      by (auto simp: fib_body_def split: prod.splits sum.splits)
    have g1: "g [n - 1] [] h = f [n - 1] [] h" by (rule extends_call [OF assms 1])
    show ?thesis
    proof (cases "f [n - 1] [] h")
      case (Pair r h1)
      show ?thesis
      proof (cases r)
        case (Inl e)
        with Pair g1 n show ?thesis by (simp add: fib_body_def)
      next
        case (Inr v)
        with a n Pair have 2: "fst (f [n - 2] [] h1) \<noteq> Inl RecursionError"
          by (auto simp: fib_body_def split: prod.splits sum.splits)
        from extends_call [OF assms 2] Inr Pair g1 n show ?thesis by (simp add: fib_body_def)
      qed
    qed
  qed
qed

lemma extends_fib_global_Suc: "extends (fib_global k) (fib_global (Suc k))"
proof (induction k)
  case 0
  show ?case by (simp add: extends_def)
next
  case (Suc k)
  show ?case
    unfolding fib_global_Suc [of "Suc k"] fib_global_Suc [of k]
    by (intro extends_countcalls extends_trace extends_memo extends_fib_body
          Suc.IH [unfolded fib_global_Suc])
qed

lemma extends_fib_global: "k \<le> k' \<Longrightarrow> extends (fib_global k) (fib_global k')"
proof (induction k' )
  case 0
  then show ?case by (simp add: extends_refl)
next
  case (Suc k')
  show ?case
  proof (cases "k = Suc k'")
    case True
    then show ?thesis by (simp add: extends_refl)
  next
    case False
    with Suc have "extends (fib_global k) (fib_global k')" by simp
    then show ?thesis using extends_fib_global_Suc extends_trans by blast
  qed
qed

text \<open>Once a call of fib ends without RecursionError, a larger limit changes nothing.\<close>

lemma fib_limit_irrelevant:
  assumes "k \<le> k'" "fst (snd (fib k) args kwargs h) \<noteq> Inl RecursionError"
  shows "snd (fib k') args kwargs h = snd (fib k) args kwargs h"
  using assms extends_call [OF extends_fib_global [of "Suc k" "Suc k'"]]
  by (simp add: fib_eq)


section \<open>Running \<^verbatim>\<open>fib\<close> on the freshly loaded module\<close>

lemma repeat_pos: "0 < n \<Longrightarrow> repeat tab n = tab @ repeat tab (n - 1)"
proof -
  assume "0 < n"
  then have "nat n = Suc (nat (n - 1))" by simp
  then show ?thesis by (simp add: repeat_def)
qed

lemma repeat_numeral:
  "repeat tab 0 = []"
  "repeat tab 1 = tab"
  "repeat tab (numeral k) = tab @ repeat tab (numeral k - 1)"
  using repeat_pos [of 1 tab] repeat_pos [of "numeral k" tab] by (simp_all add: repeat_def)

lemmas fib_run = fib_eq fib_global_Suc fib_global_numeral repeat_numeral
  memo_wrapper_def countcalls_wrapper_def trace_wrapper_def memo_key_def
  results_of_def return_result_def store_result_def iadd_attr_def int_attr_def
  fib_body_def full_str_def str_def str_nat.simps Let_def module_heap_obs

lemma fib_3_outcome:
  "fib_outcome (snd (fib 3) [3] [] module_heap) =
     (Inr 3, Some (IntV 5), Some (IntV 0),
      [''#### --> fib (3)'',
       ''######## --> fib (2)'',
       ''############ --> fib (1)'',
       ''############ <-- fib (1) == 1'',
       ''############ --> fib (0)'',
       ''############ <-- fib (0) == 1'',
       ''######## <-- fib (2) == 2'',
       ''######## --> fib (1)'',
       ''######## <-- fib (1) == 1'',
       ''#### <-- fib (3) == 3''])"
  by (simp add: fib_run fib_outcome_def)

lemma fib_5_outcome:
  "fib_outcome (snd (fib 5) [5] [] module_heap) =
     (Inr 8, Some (IntV 9), Some (IntV 0),
      [''#### --> fib (5)'',
       ''######## --> fib (4)'',
       ''############ --> fib (3)'',
       ''################ --> fib (2)'',
       ''#################### --> fib (1)'',
       ''#################### <-- fib (1) == 1'',
       ''#################### --> fib (0)'',
       ''#################### <-- fib (0) == 1'',
       ''################ <-- fib (2) == 2'',
       ''################ --> fib (1)'',
       ''################ <-- fib (1) == 1'',
       ''############ <-- fib (3) == 3'',
       ''############ --> fib (2)'',
       ''############ <-- fib (2) == 2'',
       ''######## <-- fib (4) == 5'',
       ''######## --> fib (3)'',
       ''######## <-- fib (3) == 3'',
       ''#### <-- fib (5) == 8''])"
  by (simp add: fib_run fib_outcome_def)

lemma fib_keyword_outcome:
  "fib_outcome (snd (fib 3) [] [(''n'', 3)] module_heap) =
     (Inl ValueError, Some (IntV 1), Some (IntV 0), [])"
  by (simp add: fib_run fib_outcome_def)

lemma fib_outcome_limit:
  assumes "k \<le> k'" "fst (fib_outcome (snd (fib k) args kwargs h)) \<noteq> Inl RecursionError"
  shows "fib_outcome (snd (fib k') args kwargs h) = fib_outcome (snd (fib k) args kwargs h)"
  using fib_limit_irrelevant [of k k' args kwargs h] assms by (simp add: fib_outcome_def)

lemma fst_fib: "fst (fib limit) = 12"
  by (simp add: fib_eq)

text \<open>
  C9. The recursive calls in the body of \<^verbatim>\<open>fib\<close> go to the decorated global: with a fresh
  cache and any recursion limit of at least 5 nested calls, \<^verbatim>\<open>fib(5)\<close> returns 8 and leaves
  \<^verbatim>\<open>fib.calls == 9\<close>, and the tracer prints an entry and an exit line for each of the nine
  invocations, the three cache hits \<^verbatim>\<open>fib(1)\<close>, \<^verbatim>\<open>fib(2)\<close>, \<^verbatim>\<open>fib(3)\<close> included.
\<close>

theorem fib_5_calls:
  assumes "5 \<le> limit"
  shows "fst (snd (fib limit) [5] [] module_heap) = Inr 8 \<and>
         getattr (snd (snd (fib limit) [5] [] module_heap)) (fst (fib limit)) ''calls''
           = Some (IntV 9) \<and>
         stdout (snd (snd (fib limit) [5] [] module_heap)) =
           [''#### --> fib (5)'',
            ''######## --> fib (4)'',
            ''############ --> fib (3)'',
            ''################ --> fib (2)'',
            ''#################### --> fib (1)'',
            ''#################### <-- fib (1) == 1'',
            ''#################### --> fib (0)'',
            ''#################### <-- fib (0) == 1'',
            ''################ <-- fib (2) == 2'',
            ''################ --> fib (1)'',
            ''################ <-- fib (1) == 1'',
            ''############ <-- fib (3) == 3'',
            ''############ --> fib (2)'',
            ''############ <-- fib (2) == 2'',
            ''######## <-- fib (4) == 5'',
            ''######## --> fib (3)'',
            ''######## <-- fib (3) == 3'',
            ''#### <-- fib (5) == 8'']"
proof -
  have "fib_outcome (snd (fib limit) [5] [] module_heap)
          = fib_outcome (snd (fib 5) [5] [] module_heap)"
    by (rule fib_outcome_limit [OF assms]) (simp add: fib_5_outcome)
  then show ?thesis
    unfolding fib_5_outcome by (simp add: fib_outcome_def fst_fib)
qed

theorem fib_5_calls_witness:
  "(5::nat) \<le> 5 \<and>
   fst (snd (fib 5) [5] [] module_heap) = Inr 8 \<and>
   getattr (snd (snd (fib 5) [5] [] module_heap)) (fst (fib 5)) ''calls'' = Some (IntV 9) \<and>
   length (stdout (snd (snd (fib 5) [5] [] module_heap))) = 18"
proof -
  have le: "(5::nat) \<le> 5" by simp
  from fib_5_calls [OF le] le show ?thesis by simp
qed

section \<open>The tracer\<close>

text \<open>
  What the tracer prints around a call that returns: \<^verbatim>\<open>print\<close> separates its arguments by
  single spaces, so a space stands between the indentation and the arrow, and another one
  between the function's name and the parenthesised arguments.
\<close>

lemma trace_lines:
  "join '' '' [repeat tab d, ''-->'', nm, ''('' @ s @ '')'']
     = repeat tab d @ '' --> '' @ nm @ '' ('' @ s @ '')''"
  "join '' '' [repeat tab d, ''<--'', nm, ''('' @ s @ '')'', ''=='', r]
     = repeat tab d @ '' <-- '' @ nm @ '' ('' @ s @ '') == '' @ r"
  by simp_all

lemma trace_wrapper_output:
  assumes "int_attr h dec ''depth'' = Inr d"
    and "render_kwargs kwargs = Some ks"
    and "trace_wrapper tab dec func args kwargs h = (Inr r, h')"
  shows "\<exists>h2 d'. snd func args kwargs
             (print [repeat tab (d + 1), ''-->'', f_name (funs h (fst func)),
                     ''('' @ full_str args ks @ '')'']
                (setattr dec ''depth'' (IntV (d + 1)) h)) = (Inr r, h2)
           \<and> int_attr h2 dec ''depth'' = Inr d'
           \<and> stdout h' = stdout h2 @
               [repeat tab d' @ '' <-- '' @ f_name (funs h2 (fst func))
                  @ '' ('' @ full_str args ks @ '') == '' @ str r]"
  using assms
  by (auto simp: trace_wrapper_def iadd_attr_def int_attr_def Let_def
           split: sum.splits prod.splits option.splits aval.splits)

text \<open>
  C6 (the code departs from the specified format). For \<^verbatim>\<open>fib(3)\<close> on the fresh module the
  first and the last line printed are \<^verbatim>\<open>#### --> fib (3)\<close> and \<^verbatim>\<open>#### <-- fib (3) == 3\<close>: the
  indentation, one space and the arrow are as specified, but a space separates the name from
  the opening parenthesis, where the specified format (and the docstring of \<^verbatim>\<open>trace\<close>) has
  none.
\<close>

theorem trace_format_fib_3:
  "hd (stdout (snd (snd (fib 3) [3] [] module_heap))) = ''#### --> fib (3)'' \<and>
   last (stdout (snd (snd (fib 3) [3] [] module_heap))) = ''#### <-- fib (3) == 3'' \<and>
   hd (stdout (snd (snd (fib 3) [3] [] module_heap))) \<noteq> ''#### --> fib(3)'' \<and>
   last (stdout (snd (snd (fib 3) [3] [] module_heap))) \<noteq> ''#### <-- fib(3) == 3''"
  using fib_3_outcome by (simp add: fib_outcome_def)

text \<open>
  C7, as stated, fails: \<^verbatim>\<open>fib(3)\<close> with a fresh cache does not print nine lines.
\<close>

theorem fib_3_not_nine_lines:
  "length (stdout (snd (snd (fib 3) [3] [] module_heap))) \<noteq> 9"
  using fib_3_outcome by (simp add: fib_outcome_def)

text \<open>
  C7, amended. \<^verbatim>\<open>fib(3)\<close> with a fresh cache (and a recursion limit of at least 3 nested
  calls) prints ten lines: an entry and an exit line for each of the five invocations
  \<^verbatim>\<open>fib(3)\<close>, \<^verbatim>\<open>fib(2)\<close>, \<^verbatim>\<open>fib(1)\<close>, \<^verbatim>\<open>fib(0)\<close> and \<^verbatim>\<open>fib(1)\<close> again, the last one a cache hit
  that is traced all the same. Every entry line is closed by an exit line of the same
  indentation for the same call, properly nested.
\<close>

theorem fib_3_trace:
  assumes "3 \<le> limit"
  shows "stdout (snd (snd (fib limit) [3] [] module_heap)) =
           [''#### --> fib (3)'',
            ''######## --> fib (2)'',
            ''############ --> fib (1)'',
            ''############ <-- fib (1) == 1'',
            ''############ --> fib (0)'',
            ''############ <-- fib (0) == 1'',
            ''######## <-- fib (2) == 2'',
            ''######## --> fib (1)'',
            ''######## <-- fib (1) == 1'',
            ''#### <-- fib (3) == 3''] \<and>
         length (stdout (snd (snd (fib limit) [3] [] module_heap))) = 10 \<and>
         well_nested (stdout (snd (snd (fib limit) [3] [] module_heap))) []"
proof -
  have "fib_outcome (snd (fib limit) [3] [] module_heap)
          = fib_outcome (snd (fib 3) [3] [] module_heap)"
    by (rule fib_outcome_limit [OF assms]) (simp add: fib_3_outcome)
  then have "stdout (snd (snd (fib limit) [3] [] module_heap)) =
           [''#### --> fib (3)'',
            ''######## --> fib (2)'',
            ''############ --> fib (1)'',
            ''############ <-- fib (1) == 1'',
            ''############ --> fib (0)'',
            ''############ <-- fib (0) == 1'',
            ''######## <-- fib (2) == 2'',
            ''######## --> fib (1)'',
            ''######## <-- fib (1) == 1'',
            ''#### <-- fib (3) == 3'']"
    unfolding fib_3_outcome by (simp add: fib_outcome_def)
  then show ?thesis by simp
qed

theorem fib_3_trace_witness:
  "(3::nat) \<le> 3 \<and>
   length (stdout (snd (snd (fib 3) [3] [] module_heap))) = 10 \<and>
   well_nested (stdout (snd (snd (fib 3) [3] [] module_heap))) []"
proof -
  have le: "(3::nat) \<le> 3" by simp
  from fib_3_trace [OF le] le show ?thesis by simp
qed

text \<open>
  C8 (the code does not render keyword arguments as \<open>name=value\<close>). The tracer iterates over the
  keyword \<^emph>\<open>names\<close> and unpacks each name into two variables. For \<^verbatim>\<open>fib(n=3)\<close> the
  one-character name cannot be unpacked: the call raises \<^verbatim>\<open>ValueError\<close> after the counter
  was incremented, before anything is printed and without calling the function. A
  two-character name such as \<^verbatim>\<open>ab\<close> in \<^verbatim>\<open>f(ab=7)\<close> is rendered \<^verbatim>\<open>a=b\<close>, whatever its value.
\<close>

theorem trace_keyword_arguments:
  "fst (snd (fib 3) [] [(''n'', 3)] module_heap) = Inl ValueError \<and>
   stdout (snd (snd (fib 3) [] [(''n'', 3)] module_heap)) = [] \<and>
   getattr (snd (snd (fib 3) [] [(''n'', 3)] module_heap)) 12 ''calls'' = Some (IntV 1) \<and>
   render_kwargs [(''n'', 3)] = None \<and>
   render_kwargs [(''ab'', 7)] = Some [''a=b'']"
  using fib_keyword_outcome by (simp add: fib_outcome_def)

section \<open>Call counters and cache keys\<close>

lemma memo_wrapper_getattr_other:
  assumes "\<And>a k h. getattr (snd (snd func a k h)) f x = getattr h f x" and "f \<noteq> w"
  shows "getattr (snd (memo_wrapper w func args kwargs h)) f x = getattr h f x"
proof -
  have "getattr (snd (snd func args kwargs h)) f x = getattr h f x" by (rule assms)
  with assms(2) show ?thesis
    by (auto simp: memo_wrapper_def return_result_def store_result_def Let_def
             split: sum.splits prod.splits option.splits)
qed

lemma bar_counts:
  assumes "getattr h 7 ''calls'' = Some (IntV c)"
  shows "getattr (snd (snd bar args kwargs h)) 7 ''calls'' = Some (IntV (c + 1))"
proof -
  have inner: "getattr (snd (snd (5, n_ary_wrapper (4, bar_body)) a k h')) 7 x = getattr h' 7 x"
    for a k h' x
    by (simp add: n_ary_heap bar_body_heap)
  have "getattr (snd (memo_wrapper 6 (5, n_ary_wrapper (4, bar_body)) args kwargs h')) 7 x
          = getattr h' 7 x" for h' x
    by (rule memo_wrapper_getattr_other [OF inner]) simp
  with assms show ?thesis
    by (simp add: bar_eq countcalls_wrapper_def iadd_attr_def int_attr_def)
qed

lemma bar_counts_all:
  "getattr h 7 ''calls'' = Some (IntV c) \<Longrightarrow>
     getattr (call_all (snd bar) cs h) 7 ''calls'' = Some (IntV (c + int (length cs)))"
proof (induction cs arbitrary: h c)
  case Nil
  then show ?case by simp
next
  case (Cons a cs)
  obtain args kwargs where a: "a = (args, kwargs)" by (cases a)
  from bar_counts [OF Cons.prems, of args kwargs]
  have "getattr (call_all (snd bar) cs (snd (snd bar args kwargs h))) 7 ''calls''
          = Some (IntV (c + 1 + int (length cs)))"
    by (rule Cons.IH)
  with a show ?case by (simp add: add.assoc add.commute)
qed

lemma foo_main_calls:
  "getattr (call_all (snd foo) [([4, 3], []), ([4, 3, 2], []), ([4, 3], [])] module_heap) 3 ''calls''
     = Some (IntV 2)"
  by (simp add: foo_eq run_defs module_heap_obs)

lemma bar_main_calls:
  "getattr (call_all (snd bar) [([4, 3], []), ([4, 3, 2], []), ([4, 3, 2, 1], [])] module_heap) 7 ''calls''
     = Some (IntV 3)"
  by (simp add: bar_eq run_defs module_heap_obs)

lemma foo_underlying_calls:
  "getattr (call_all (snd foo) [([4, 3], []), ([4, 3, 2], [])] module_heap) 2 ''calls'' = Some (IntV 2)"
  "getattr (call_all (snd foo) [([4, 3], []), ([3, 4], [])] module_heap) 2 ''calls'' = Some (IntV 2)"
  "getattr (call_all (snd foo) [([4], []), ([], [(''x'', 4)])] module_heap) 2 ''calls'' = Some (IntV 2)"
  "getattr (call_all (snd foo) [([4, 3], []), ([4, 3], [])] module_heap) 2 ''calls'' = Some (IntV 1)"
  by (simp_all add: foo_eq run_defs module_heap_obs)

lemma foo_bar_results:
  "fst (snd foo [4, 3] [] module_heap) = Inr 7"
  "fst (snd foo [3, 4] [] module_heap) = Inr 7"
  "fst (snd foo [4, 3, 2] [] module_heap) = Inr 9"
  "fst (snd foo [4] [] module_heap) = Inr 4"
  "fst (snd foo [] [(''x'', 4)] module_heap) = Inr 4"
  "fst (snd bar [4, 3] [] module_heap) = Inr 12"
  "fst (snd bar [4, 3, 2, 1] [] module_heap) = Inr 24"
  by (simp_all add: foo_eq bar_eq run_defs module_heap_obs)

lemma foo_bar_results_in_main:
  "fst (snd foo [4, 3, 2] [] (call_all (snd foo) [([4, 3], [])] module_heap)) = Inr 9"
  "fst (snd foo [4, 3] [] (call_all (snd foo) [([4, 3], []), ([4, 3, 2], [])] module_heap)) = Inr 7"
  "fst (snd bar [4, 3, 2] [] (call_all (snd bar) [([4, 3], [])] module_heap)) = Inr 24"
  "fst (snd bar [4, 3, 2, 1] [] (call_all (snd bar) [([4, 3], []), ([4, 3, 2], [])] module_heap))
     = Inr 24"
  by (simp_all add: foo_eq bar_eq run_defs module_heap_obs)

lemma fst_foo_bar: "fst foo = 3" "fst bar = 7"
  by (simp_all add: foo_eq bar_eq)

lemma foo_cache:
  "cache_ok 3 (2, countcalls_wrapper 2 (1, n_ary_wrapper (0, foo_body))) module_heap 0"
  "dicts module_heap 0 (2, [4, 3, 2], []) = None"
  by (simp_all add: cache_ok_def module_heap_obs)

lemma foo_longer_calls:
  "getattr (call_all (snd foo) [([4, 3, 2], []), ([4, 3, 2, 1], [])] module_heap) 2 ''calls''
     = Some (IntV 2)"
  "fst (snd foo [4, 3, 2, 1] [] (call_all (snd foo) [([4, 3, 2], [])] module_heap)) = Inr 10"
  by (simp_all add: foo_eq run_defs module_heap_obs)

lemma memo_foo:
  "memo (2, countcalls_wrapper 2 (1, n_ary_wrapper (0, foo_body)))
        (snd (countcalls (1, n_ary_wrapper (0, foo_body))
           (snd (n_ary (0, foo_body) (snd (def_function ''foo'' None empty_heap))))))
     = ((3, snd foo),
        snd (memo (2, countcalls_wrapper 2 (1, n_ary_wrapper (0, foo_body)))
               (snd (countcalls (1, n_ary_wrapper (0, foo_body))
                  (snd (n_ary (0, foo_body) (snd (def_function ''foo'' None empty_heap))))))))"
  "next_fun (snd (countcalls (1, n_ary_wrapper (0, foo_body))
           (snd (n_ary (0, foo_body) (snd (def_function ''foo'' None empty_heap)))))) = 3"
  by (simp_all add: prod_eq_iff memo_of foo_eq deco_defs split_def Let_def eval_nat_numeral)

text \<open>
  C4. Let \<open>g = memo(func)\<close> be a memoized function whose underlying callable does not itself
  write to the cache. In any store where the call \<open>(args', kwargs')\<close> is not cached yet,
  and after any calls \<open>cs\<close> of \<open>g\<close> whose arguments all differ from \<open>(args', kwargs')\<close>, in
  arity, in order, in being passed by position or by keyword, or in any other way, the
  call \<open>g(args', kwargs')\<close> is a miss: it invokes the underlying callable on exactly these
  arguments, in the store the earlier calls left, and returns its result (storing it under
  its own key) or propagates its exception. The key is the wrapped function with the
  positional arguments and the keyword pairs exactly as received: two keys are equal only
  if both coincide. On \<^verbatim>\<open>foo\<close>, whose call counter sits under the memoizer and so counts the
  invocations of the underlying callable: \<^verbatim>\<open>(4, 3)\<close> and \<^verbatim>\<open>(4, 3, 2)\<close>, \<^verbatim>\<open>(4, 3)\<close> and
  \<^verbatim>\<open>(3, 4)\<close>, \<^verbatim>\<open>(4)\<close> and \<^verbatim>\<open>(x=4)\<close>, \<^verbatim>\<open>(4, 3, 2)\<close> and \<^verbatim>\<open>(4, 3, 2, 1)\<close> each invoke it twice,
  also where the two results are equal; the same call made twice invokes it once.
\<close>

theorem memo_key_exact:
  "(memo func h0 = ((w, g), h0') \<and> fst func < next_fun h0 \<and>
    leaves_cache w func (snd func) \<and> cache_ok w func h d \<and>
    dicts h d (fst func, args', kwargs') = None \<and> (args', kwargs') \<notin> set cs \<longrightarrow>
      g args' kwargs' (call_all g cs h) =
        (case snd func args' kwargs' (call_all g cs h) of
           (Inl e, h1) \<Rightarrow> (Inl e, h1)
         | (Inr v, h1) \<Rightarrow>
             (Inr v, update_wrapper w (fst func) (setitem d (fst func, args', kwargs') v h1)))) \<and>
   (memo_key func args kwargs = memo_key func args' kwargs' \<longleftrightarrow>
      args = args' \<and> kwargs = kwargs') \<and>
   memo_key func [4, 3] [] \<noteq> memo_key func [4, 3, 2] [] \<and>
   memo_key func [4, 3] [] \<noteq> memo_key func [3, 4] [] \<and>
   memo_key func [4] [] \<noteq> memo_key func [] [(''x'', 4)] \<and>
   getattr (call_all (snd foo) [([4, 3], []), ([4, 3, 2], [])] module_heap) 2 ''calls''
     = Some (IntV 2) \<and>
   getattr (call_all (snd foo) [([4, 3], []), ([3, 4], [])] module_heap) 2 ''calls''
     = Some (IntV 2) \<and>
   fst (snd foo [4, 3] [] module_heap) = Inr 7 \<and>
   fst (snd foo [3, 4] [] module_heap) = Inr 7 \<and>
   getattr (call_all (snd foo) [([4], []), ([], [(''x'', 4)])] module_heap) 2 ''calls''
     = Some (IntV 2) \<and>
   fst (snd foo [4] [] module_heap) = Inr 4 \<and>
   fst (snd foo [] [(''x'', 4)] module_heap) = Inr 4 \<and>
   getattr (call_all (snd foo) [([4, 3, 2], []), ([4, 3, 2, 1], [])] module_heap) 2 ''calls''
     = Some (IntV 2) \<and>
   fst (snd foo [4, 3, 2, 1] [] (call_all (snd foo) [([4, 3, 2], [])] module_heap)) = Inr 10 \<and>
   getattr (call_all (snd foo) [([4, 3], []), ([4, 3], [])] module_heap) 2 ''calls''
     = Some (IntV 1)"
proof -
  have general: "g args' kwargs' (call_all g cs h) =
        (case snd func args' kwargs' (call_all g cs h) of
           (Inl e, h1) \<Rightarrow> (Inl e, h1)
         | (Inr v, h1) \<Rightarrow>
             (Inr v, update_wrapper w (fst func) (setitem d (fst func, args', kwargs') v h1)))"
    if "memo func h0 = ((w, g), h0')" "fst func < next_fun h0"
      "leaves_cache w func (snd func)" "cache_ok w func h d"
      "dicts h d (fst func, args', kwargs') = None" "(args', kwargs') \<notin> set cs"
  proof -
    from that(1) memo_of [of func h0] have "w = next_fun h0" by simp
    with that(2) have "w \<noteq> fst func" by simp
    from memo_distinct_calls [OF that(1) this that(3-6)] show ?thesis .
  qed
  then show ?thesis
    by (simp add: memo_key_def foo_underlying_calls foo_bar_results foo_longer_calls
          del: call_all.simps)
qed

theorem memo_key_exact_witness:
  "memo (2, countcalls_wrapper 2 (1, n_ary_wrapper (0, foo_body)))
        (snd (countcalls (1, n_ary_wrapper (0, foo_body))
           (snd (n_ary (0, foo_body) (snd (def_function ''foo'' None empty_heap))))))
     = ((3, snd foo),
        snd (memo (2, countcalls_wrapper 2 (1, n_ary_wrapper (0, foo_body)))
               (snd (countcalls (1, n_ary_wrapper (0, foo_body))
                  (snd (n_ary (0, foo_body) (snd (def_function ''foo'' None empty_heap)))))))) \<and>
   (2::nat) < next_fun (snd (countcalls (1, n_ary_wrapper (0, foo_body))
           (snd (n_ary (0, foo_body) (snd (def_function ''foo'' None empty_heap)))))) \<and>
   leaves_cache 3 (2, countcalls_wrapper 2 (1, n_ary_wrapper (0, foo_body)))
     (countcalls_wrapper 2 (1, n_ary_wrapper (0, foo_body))) \<and>
   cache_ok 3 (2, countcalls_wrapper 2 (1, n_ary_wrapper (0, foo_body))) module_heap 0 \<and>
   dicts module_heap 0 (2, [4, 3, 2], []) = None \<and>
   (([4, 3, 2], []) :: int list \<times> kwargs) \<notin> set [([4, 3], [])] \<and>
   snd foo [4, 3, 2] [] (call_all (snd foo) [([4, 3], [])] module_heap) =
     (case countcalls_wrapper 2 (1, n_ary_wrapper (0, foo_body)) [4, 3, 2] []
             (call_all (snd foo) [([4, 3], [])] module_heap) of
        (Inl e, h1) \<Rightarrow> (Inl e, h1)
      | (Inr v, h1) \<Rightarrow> (Inr v, update_wrapper 3 2 (setitem 0 (2, [4, 3, 2], []) v h1))) \<and>
   fst (snd foo [4, 3, 2] [] (call_all (snd foo) [([4, 3], [])] module_heap)) = Inr 9"
proof -
  let ?F = "(2, countcalls_wrapper 2 (1, n_ary_wrapper (0, foo_body)))"
  let ?h0 = "snd (countcalls (1, n_ary_wrapper (0, foo_body))
           (snd (n_ary (0, foo_body) (snd (def_function ''foo'' None empty_heap)))))"
  have new: "(([4, 3, 2], []) :: int list \<times> kwargs) \<notin> set [([4, 3], [])]" by simp
  have lt: "fst ?F < next_fun ?h0" unfolding memo_foo(2) by simp
  have lt': "(2::nat) < next_fun ?h0" unfolding memo_foo(2) by simp
  have lc: "leaves_cache 3 ?F (snd ?F)" using leaves_cache_foo by simp
  have absent: "dicts module_heap 0 (fst ?F, [4, 3, 2], []) = None" by (simp add: foo_cache)
  note run = memo_key_exact [of ?F ?h0 3 "snd foo" "snd (memo ?F ?h0)" module_heap 0
      "[4, 3, 2]" "[]" "[([4, 3], [])]", THEN conjunct1, THEN mp,
      OF conjI [OF memo_foo(1) conjI [OF lt conjI [OF lc conjI [OF foo_cache(1)
        conjI [OF absent new]]]]]]
  show ?thesis
    by (intro conjI memo_foo(1) lt' leaves_cache_foo foo_cache new
          run [unfolded fst_conv snd_conv] foo_bar_results_in_main(1))
qed

text \<open>
  C5. \<^verbatim>\<open>bar\<close>: the call counter is the outermost layer, so every invocation, a cache hit
  or not, returning or raising, adds one to \<^verbatim>\<open>bar.calls\<close>: \<open>N\<close> invocations add \<open>N\<close>.
  \<^verbatim>\<open>foo\<close>: the memoizer is the outermost layer, so a repetition of a call that returned
  is answered from the cache and leaves the whole store, \<^verbatim>\<open>foo.calls\<close> included, as it is.
  In the sequence of \<^verbatim>\<open>main\<close>, \<^verbatim>\<open>foo(4, 3)\<close>, \<^verbatim>\<open>foo(4, 3, 2)\<close>, \<^verbatim>\<open>foo(4, 3)\<close> leave
  \<^verbatim>\<open>foo.calls == 2\<close> (the two misses), and the three calls of \<^verbatim>\<open>bar\<close> leave \<^verbatim>\<open>bar.calls == 3\<close>.
\<close>

theorem call_counters:
  "(getattr h (fst bar) ''calls'' = Some (IntV c) \<longrightarrow>
      getattr (call_all (snd bar) cs h) (fst bar) ''calls''
        = Some (IntV (c + int (length cs)))) \<and>
   (snd foo args kwargs h = (Inr r, h1) \<longrightarrow>
      snd foo args kwargs h1 = (Inr r, h1) \<and>
      getattr (snd (snd foo args kwargs h1)) (fst foo) ''calls''
        = getattr h1 (fst foo) ''calls'') \<and>
   getattr (call_all (snd foo) [([4, 3], []), ([4, 3, 2], []), ([4, 3], [])] module_heap)
      (fst foo) ''calls'' = Some (IntV 2) \<and>
   getattr (call_all (snd bar) [([4, 3], []), ([4, 3, 2], []), ([4, 3, 2, 1], [])] module_heap)
      (fst bar) ''calls'' = Some (IntV 3)"
proof -
  have hit: "snd foo args kwargs h1 = (Inr r, h1)" if "snd foo args kwargs h = (Inr r, h1)"
    using memo_repeat [of 3 "(2, countcalls_wrapper 2 (1, n_ary_wrapper (0, foo_body)))"
        args kwargs h r h1 "countcalls_wrapper 2 (1, n_ary_wrapper (0, foo_body))"] that
    by (simp add: foo_eq)
  show ?thesis
    using hit
    by (auto simp: fst_foo_bar bar_counts_all foo_main_calls bar_main_calls
             simp del: call_all.simps)
qed

theorem call_counters_witness:
  "getattr module_heap (fst bar) ''calls'' = Some (IntV 0) \<and>
   getattr (call_all (snd bar) [([4, 3], []), ([4, 3], [])] module_heap) (fst bar) ''calls''
     = Some (IntV 2) \<and>
   fst (snd foo [4, 3] [] module_heap) = Inr 7 \<and>
   snd foo [4, 3] [] (snd (snd foo [4, 3] [] module_heap))
     = (Inr 7, snd (snd foo [4, 3] [] module_heap))"
proof -
  have b: "getattr module_heap (fst bar) ''calls'' = Some (IntV 0)"
    by (simp add: fst_foo_bar module_heap_obs)
  have f: "fst (snd foo [4, 3] [] module_heap) = Inr 7"
    by (rule foo_bar_results)
  then have f': "snd foo [4, 3] [] module_heap = (Inr 7, snd (snd foo [4, 3] [] module_heap))"
    by (simp add: prod_eq_iff)
  from call_counters [of module_heap 0 "[([4, 3], []), ([4, 3], [])]" "[4, 3]" "[]" 7
      "snd (snd foo [4, 3] [] module_heap)"] b f f'
  show ?thesis by (simp del: call_all.simps)
qed

section \<open>\<^verbatim>\<open>fib\<close> computes its recurrence\<close>




















end
